theory Spec2Isabelle
  imports Complex_Main "HOL-Library.Log_Nat"
begin

section \<open>ArtLens: the embedding module (frontend/src/js/embedding.js)\<close>

text \<open>
  The module keeps two variables (\<open>embedModel\<close>, \<open>runtimeDim\<close>), loads a MobileNet
  feature extractor, turns a canvas into an L2-normalised feature vector
  (\<open>embedFromCanvas\<close>) and scores two vectors by their dot product (\<open>cosineSim\<close>).

  A finite JavaScript number is a \<^typ>\<open>real\<close>. The values IEEE arithmetic has beyond
  the reals (NaN, the infinities) are the single value \<open>None\<close> of \<open>jsnum\<close>; sums and
  products involving one of them are again one of them.

  The arithmetic of \<open>cosineSim\<close> is a parameter, the rounding applied to the exact result
  of each \<open>+\<close> and \<open>*\<close>: \<open>exact\<close> rounds nothing and is the reading of the properties that
  the specification states in exact arithmetic; \<open>binary64\<close> is what a JavaScript engine
  computes. The normalisation step of \<open>embedFromCanvas\<close> is modelled in exact arithmetic
  only.
\<close>

subsection \<open>Numbers\<close>

type_synonym jsnum = "real option"

type_synonym rounding = "real \<Rightarrow> jsnum"

definition exact :: rounding where
  "exact x = Some x"

text \<open>\<open>2\<close> to an integer power.\<close>

definition pow2 :: "int \<Rightarrow> real" where
  "pow2 e = (if 0 \<le> e then 2 ^ nat e else 1 / 2 ^ nat (- e))"

text \<open>For \<open>x > 0\<close>, the integer \<open>E\<close> with \<open>2 ^ E \<le> x < 2 ^ (E + 1)\<close>, from the number of
  bits of an integer (\<open>bitlen\<close>).\<close>

definition floor_log2 :: "real \<Rightarrow> int" where
  "floor_log2 x = (if 1 \<le> x then bitlen \<lfloor>x\<rfloor> - 1 else - bitlen (\<lceil>1 / x\<rceil> - 1))"

text \<open>The nearest integer, a tie going to the even one.\<close>

definition round_half_even :: "real \<Rightarrow> int" where
  "round_half_even r =
     (let f = \<lfloor>r\<rfloor>; d = r - of_int f
      in if d < 1 / 2 then f else if 1 / 2 < d then f + 1 else if even f then f else f + 1)"

text \<open>
  IEEE 754 binary64 rounding to nearest, ties to even: 53 significant bits, the spacing
  of the numbers near \<open>x\<close> is \<open>2 ^ q\<close> with \<open>q\<close> no less than \<open>-1074\<close> (the subnormal
  spacing), and a result of \<open>2 ^ 1024\<close> or more is an infinity. The two zeros are one.
\<close>

definition binary64 :: rounding where
  "binary64 x =
     (if x = 0 then Some 0
      else
        (let q = max (floor_log2 \<bar>x\<bar> - 52) (- 1074);
             m = round_half_even (\<bar>x\<bar> / pow2 q);
             y = of_int m * pow2 q
         in if 2 ^ 1024 \<le> y then None else Some (sgn x * y)))"

text \<open>\<open>a + b\<close> and \<open>a * b\<close> on numbers, in the arithmetic \<open>rnd\<close>.\<close>

fun js_add :: "rounding \<Rightarrow> jsnum \<Rightarrow> jsnum \<Rightarrow> jsnum" where
  "js_add rnd (Some a) (Some b) = rnd (a + b)"
| "js_add rnd _ _ = None"

fun js_mul :: "rounding \<Rightarrow> jsnum \<Rightarrow> jsnum \<Rightarrow> jsnum" where
  "js_mul rnd (Some a) (Some b) = rnd (a * b)"
| "js_mul rnd _ _ = None"

text \<open>
  \<open>a / b\<close> on finite numbers. JavaScript does not throw on a zero divisor: the quotient
  is an infinity or NaN, which is \<open>None\<close> here (HOL's own \<open>a / 0\<close> would be \<open>0\<close>).
\<close>

definition js_div :: "real \<Rightarrow> real \<Rightarrow> jsnum" where
  "js_div a b = (if b = 0 then None else Some (a / b))"

subsection \<open>Values\<close>

text \<open>What is thrown: \<open>new Error(msg)\<close>, or the engine's TypeError (a property read of
  \<open>null\<close> or \<open>undefined\<close>, a BigInt mixed with a number).\<close>

datatype error = Error string | TypeError

text \<open>What an array holds at an index: a number or a BigInt.\<close>

datatype jselem = Num jsnum | BigInt int

text \<open>The arguments of \<open>cosineSim\<close>: \<open>null\<close>, \<open>undefined\<close>, a finite number, or an
  array (a plain array or a typed array). \<open>Vec xs\<close> is the array of the finite numbers
  \<open>xs\<close>, a feature vector.\<close>

datatype jsval = Null | Undefined | Number real | Arr "jselem list"

definition Vec :: "real list \<Rightarrow> jsval" where
  "Vec xs = Arr (map (\<lambda>x. Num (Some x)) xs)"

text \<open>\<open>!v\<close> is false on the truthy values: every array (the empty one too) and every
  number but \<open>0\<close>.\<close>

fun truthy :: "jsval \<Rightarrow> bool" where
  "truthy Null = False"
| "truthy Undefined = False"
| "truthy (Number x) = (x \<noteq> 0)"
| "truthy (Arr xs) = True"

text \<open>\<open>v.length\<close>: a TypeError on \<open>null\<close> and \<open>undefined\<close>, \<open>undefined\<close> (\<open>None\<close>) on a
  number.\<close>

fun js_length :: "jsval \<Rightarrow> error + nat option" where
  "js_length Null = Inl TypeError"
| "js_length Undefined = Inl TypeError"
| "js_length (Number x) = Inr None"
| "js_length (Arr xs) = Inr (Some (length xs))"

text \<open>\<open>v[i]\<close> as an operand of \<open>*\<close>: an index past the end of an array, and any index
  of a number, reads \<open>undefined\<close>, which the multiplication converts to NaN.\<close>

fun js_get :: "jsval \<Rightarrow> nat \<Rightarrow> error + jselem" where
  "js_get Null i = Inl TypeError"
| "js_get Undefined i = Inl TypeError"
| "js_get (Number x) i = Inr (Num None)"
| "js_get (Arr xs) i = Inr (if i < length xs then xs ! i else Num None)"

text \<open>\<open>x * y\<close> on two elements: the product of two numbers, the product of two BigInts,
  a TypeError on one of each.\<close>

fun js_times :: "rounding \<Rightarrow> jselem \<Rightarrow> jselem \<Rightarrow> error + jselem" where
  "js_times rnd (Num a) (Num b) = Inr (Num (js_mul rnd a b))"
| "js_times rnd (BigInt a) (BigInt b) = Inr (BigInt (a * b))"
| "js_times rnd _ _ = Inl TypeError"

text \<open>\<open>dot + p\<close>, where \<open>dot\<close> is a number (it starts as \<open>0\<close> and is only ever assigned
  such a sum): a TypeError when \<open>p\<close> is a BigInt.\<close>

fun js_plus :: "rounding \<Rightarrow> jsnum \<Rightarrow> jselem \<Rightarrow> error + jsnum" where
  "js_plus rnd dot (Num p) = Inr (js_add rnd dot p)"
| "js_plus rnd dot (BigInt p) = Inl TypeError"

subsection \<open>cosineSim\<close>

text \<open>
  \<^verbatim>\<open>
  export function cosineSim(vecA, vecB) {
    if (!vecA || !vecB || vecA.length !== vecB.length) return -1;
    let dot = 0;
    for (let i = 0; i < vecA.length; i++) dot += vecA[i] * vecB[i];
    return dot;
  }
  \<close>
  The loop, with its counter and accumulator as arguments. \<open>i < undefined\<close> is false.
\<close>

function dot_loop :: "rounding \<Rightarrow> jsval \<Rightarrow> jsval \<Rightarrow> nat \<Rightarrow> jsnum \<Rightarrow> error + jsnum" where
  "dot_loop rnd vecA vecB i dot =
     (case js_length vecA of
        Inl e \<Rightarrow> Inl e
      | Inr None \<Rightarrow> Inr dot
      | Inr (Some n) \<Rightarrow>
          if i < n then
            (case js_get vecA i of
               Inl e \<Rightarrow> Inl e
             | Inr x \<Rightarrow>
                 (case js_get vecB i of
                    Inl e \<Rightarrow> Inl e
                  | Inr y \<Rightarrow>
                      (case js_times rnd x y of
                         Inl e \<Rightarrow> Inl e
                       | Inr p \<Rightarrow>
                           (case js_plus rnd dot p of
                              Inl e \<Rightarrow> Inl e
                            | Inr dot' \<Rightarrow> dot_loop rnd vecA vecB (Suc i) dot'))))
          else Inr dot)"
  by pat_completeness auto
termination
  by (relation "measure (\<lambda>(rnd, vecA, vecB, i, dot).
        (case js_length vecA of Inr (Some n) \<Rightarrow> n - i | _ \<Rightarrow> 0))") auto

declare dot_loop.simps [simp del]

text \<open>The guard evaluates left to right and stops at the first true disjunct, so the
  two \<open>.length\<close> reads happen only on truthy arguments. \<open>!==\<close> compares two lengths
  that are each a number or \<open>undefined\<close>.\<close>

definition cosineSim_in :: "rounding \<Rightarrow> jsval \<Rightarrow> jsval \<Rightarrow> error + jsnum" where
  "cosineSim_in rnd vecA vecB =
     (if \<not> truthy vecA then Inr (Some (- 1))
      else if \<not> truthy vecB then Inr (Some (- 1))
      else
        (case js_length vecA of
           Inl e \<Rightarrow> Inl e
         | Inr la \<Rightarrow>
             (case js_length vecB of
                Inl e \<Rightarrow> Inl e
              | Inr lb \<Rightarrow>
                  if la \<noteq> lb then Inr (Some (- 1))
                  else dot_loop rnd vecA vecB 0 (Some 0))))"

text \<open>\<open>cosineSim\<close> in exact arithmetic, and in the arithmetic of the engine.\<close>

definition cosineSim :: "jsval \<Rightarrow> jsval \<Rightarrow> error + jsnum" where
  "cosineSim = cosineSim_in exact"




subsection \<open>The normalisation step of embedFromCanvas\<close>

text \<open>
  \<^verbatim>\<open>
  let sum = 0.0;
  for (let i = 0; i < out.length; i++) sum += out[i] * out[i];
  const inv = sum > 0 ? 1 / Math.sqrt(sum) : 1.0;
  if (inv !== 1.0) {
    for (let i = 0; i < out.length; i++) out[i] *= inv;
  }
  return out; // Float32Array
  \<close>
  \<open>out\<close> is the Float32Array the feature extractor produced, a list of finite numbers
  here. Both loops index \<open>out\<close> below its own length. The variables \<open>sum\<close>
  and \<open>inv\<close> are \<open>sm\<close> and \<open>k\<close> (both names are constants of HOL).
\<close>

function sumsq_loop :: "real list \<Rightarrow> nat \<Rightarrow> real \<Rightarrow> real" where
  "sumsq_loop out i sm =
     (if i < length out then sumsq_loop out (Suc i) (sm + out ! i * out ! i) else sm)"
  by pat_completeness auto
termination
  by (relation "measure (\<lambda>(out, i, sm). length out - i)") auto

declare sumsq_loop.simps [simp del]

function scale_loop :: "real list \<Rightarrow> nat \<Rightarrow> real \<Rightarrow> real list" where
  "scale_loop out i k =
     (if i < length out then scale_loop (out[i := out ! i * k]) (Suc i) k else out)"
  by pat_completeness auto
termination
  by (relation "measure (\<lambda>(out, i, k). length out - i)") auto

declare scale_loop.simps [simp del]

definition inv_norm :: "real \<Rightarrow> jsnum" where
  "inv_norm sm = (if sm > 0 then js_div 1 (sqrt sm) else Some 1)"

text \<open>The step returns the array it was given, updated in place. \<open>None\<close>: the factor
  \<open>k\<close> is not a finite number, that is, the division had a zero divisor.\<close>

definition normalize_step :: "real list \<Rightarrow> real list option" where
  "normalize_step out =
     (case inv_norm (sumsq_loop out 0 0) of
        None \<Rightarrow> None
      | Some k \<Rightarrow> Some (if k \<noteq> 1 then scale_loop out 0 k else out))"

subsection \<open>Module state, model loading, embedFromCanvas\<close>

text \<open>
  The MobileNet object: \<open>infer m t\<close> is the feature tensor \<open>embedModel.infer(t, true)\<close>
  as the list of its elements (what \<open>.flatten().dataSync()\<close> reads; \<open>.size\<close> is their
  number), or what the call throws. \<open>'t\<close> is the type of input tensors, \<open>'c\<close> of
  canvases.
\<close>

record 't model =
  infer :: "'t \<Rightarrow> error + real list"

text \<open>\<open>globalThis.tf\<close>: \<open>ready\<close> is the outcome of \<open>await tf.ready()\<close> (\<open>Some e\<close>: it
  rejects with \<open>e\<close>), \<open>fromPixels\<close> is \<open>tf.browser.fromPixels\<close>, \<open>zeros\<close> is
  \<open>tf.zeros([224, 224, 3])\<close>. The outcome of \<open>tf.setBackend('webgl')\<close> is discarded by
  the source (\<open>try { ... } catch {}\<close>).\<close>

record ('c, 't) tfjs =
  ready :: "error option"
  fromPixels :: "'c \<Rightarrow> error + 't"
  zeros :: "'t"

text \<open>The globals the module reads at each call: \<open>globalThis.tf\<close> and
  \<open>globalThis.mobilenet\<close>, the latter given by the outcome of
  \<open>await mobilenet.load({version: 2, alpha: 1.0})\<close>.\<close>

record ('c, 't) globals =
  tf :: "('c, 't) tfjs option"
  mobilenet :: "(error + 't model) option"

record 't module_state =
  embedModel :: "'t model option"
  runtimeDim :: "nat option"

definition initial_state :: "'t module_state" where
  "initial_state = \<lparr>embedModel = None, runtimeDim = None\<rparr>"

text \<open>
  \<^verbatim>\<open>
  export async function initEmbeddingModel() {
    const tf = globalThis.tf;
    const mobilenetGlobal = globalThis.mobilenet;
    if (!tf) throw new Error('TensorFlow.js non caricato');
    try { await tf.setBackend('webgl'); } catch {}
    await tf.ready();
    if (!mobilenetGlobal) throw new Error('MobileNet non caricato');
    embedModel = await mobilenetGlobal.load({ version: 2, alpha: 1.0 });
    // Warmup to detect runtime dimension
    try {
      tf.tidy(() => {
        const dummy = tf.zeros([224, 224, 3]);
        const emb = embedModel.infer(dummy, true);
        runtimeDim = emb.size;
      });
      console.log(...);
    } catch (e) { console.warn('MobileNet warmup failed:', e); }
  }
  \<close>
  The result is the outcome of the call (\<open>Inl\<close>: the promise rejects) and the module
  state after it.
\<close>

definition warmup :: "('c, 't) tfjs \<Rightarrow> 't model \<Rightarrow> 't module_state \<Rightarrow> 't module_state" where
  "warmup t m s =
     (case infer m (zeros t) of
        Inl e \<Rightarrow> s
      | Inr emb \<Rightarrow> s\<lparr>runtimeDim := Some (length emb)\<rparr>)"

definition initEmbeddingModel ::
  "('c, 't) globals \<Rightarrow> 't module_state \<Rightarrow> (error + unit) \<times> 't module_state" where
  "initEmbeddingModel g s =
     (case tf g of
        None \<Rightarrow> (Inl (Error ''TensorFlow.js non caricato''), s)
      | Some t \<Rightarrow>
          (case ready t of
             Some e \<Rightarrow> (Inl e, s)
           | None \<Rightarrow>
               (case mobilenet g of
                  None \<Rightarrow> (Inl (Error ''MobileNet non caricato''), s)
                | Some loaded \<Rightarrow>
                    (case loaded of
                       Inl e \<Rightarrow> (Inl e, s)
                     | Inr m \<Rightarrow> (Inr (), warmup t m (s\<lparr>embedModel := Some m\<rparr>))))))"

text \<open>A sequence of calls of \<open>initEmbeddingModel\<close>, each under the globals of its
  moment: the outcomes in order, and the final state.\<close>

fun init_calls ::
  "('c, 't) globals list \<Rightarrow> 't module_state \<Rightarrow> (error + unit) list \<times> 't module_state" where
  "init_calls [] s = ([], s)"
| "init_calls (g # gs) s =
     (case initEmbeddingModel g s of
        (r, s') \<Rightarrow> (case init_calls gs s' of (rs, s'') \<Rightarrow> (r # rs, s'')))"

text \<open>
  \<^verbatim>\<open>
  export function embedFromCanvas(can) {
    const tf = globalThis.tf;
    if (!tf || !embedModel) throw new Error('Embedding model non disponibile');
    const out = tf.tidy(() => {
      const input = tf.browser.fromPixels(can);
      const feat = embedModel.infer(input, true).flatten();
      return feat.dataSync(); // Float32Array
    });
    ... the normalisation step on out ...
    return out;
  }
  \<close>
  The function assigns to no module variable, so the model returns its outcome only.
\<close>

definition embedFromCanvas ::
  "('c, 't) globals \<Rightarrow> 't module_state \<Rightarrow> 'c \<Rightarrow> error + real list option" where
  "embedFromCanvas g s can =
     (case tf g of
        None \<Rightarrow> Inl (Error ''Embedding model non disponibile'')
      | Some t \<Rightarrow>
          (case embedModel s of
             None \<Rightarrow> Inl (Error ''Embedding model non disponibile'')
           | Some m \<Rightarrow>
               (case fromPixels t can of
                  Inl e \<Rightarrow> Inl e
                | Inr input \<Rightarrow>
                    (case infer m input of
                       Inl e \<Rightarrow> Inl e
                     | Inr out \<Rightarrow> Inr (normalize_step out)))))"

subsection \<open>Example values\<close>

text \<open>A TensorFlow.js whose \<open>ready\<close> resolves, a feature extractor that answers
  \<open>[3, 4]\<close> on every tensor, and two settings of the globals: one with TensorFlow.js
  but no MobileNet, one with neither.\<close>

definition demo_tf :: "(unit, unit) tfjs" where
  "demo_tf = \<lparr>ready = None, fromPixels = (\<lambda>c. Inr ()), zeros = ()\<rparr>"

definition demo_model :: "unit model" where
  "demo_model = \<lparr>infer = (\<lambda>t. Inr [3, 4])\<rparr>"

definition demo_globals :: "(unit, unit) globals" where
  "demo_globals = \<lparr>tf = Some demo_tf, mobilenet = None\<rparr>"

definition no_globals :: "(unit, unit) globals" where
  "no_globals = \<lparr>tf = None, mobilenet = None\<rparr>"

subsection \<open>The specification's notions\<close>

text \<open>The dot product and the L2 norm as the specification writes them.\<close>

definition dot_product :: "real list \<Rightarrow> real list \<Rightarrow> real" where
  "dot_product a b = (\<Sum>i<length a. a ! i * b ! i)"

definition l2norm :: "real list \<Rightarrow> real" where
  "l2norm v = sqrt (\<Sum>x\<leftarrow>v. x\<^sup>2)"

section \<open>The loops in closed form\<close>

text \<open>Each loop is characterised from any counter value and accumulator, by induction
  along its own recursion.\<close>

lemma js_length_Vec: "js_length (Vec a) = Inr (Some (length a))"
  by (simp add: Vec_def)

lemma js_get_Vec: "i < length a \<Longrightarrow> js_get (Vec a) i = Inr (Num (Some (a ! i)))"
  by (simp add: Vec_def)

lemma truthy_Vec: "truthy (Vec a)"
  by (simp add: Vec_def)

lemma dot_loop_Vec:
  assumes "length a = length b" and "i \<le> length a"
    and "\<forall>j. i \<le> j \<and> j < length a \<longrightarrow>
           rnd (a ! j * b ! j) = Some (a ! j * b ! j)
           \<and> rnd ((\<Sum>k<j. a ! k * b ! k) + a ! j * b ! j)
               = Some ((\<Sum>k<j. a ! k * b ! k) + a ! j * b ! j)"
  shows "dot_loop rnd (Vec a) (Vec b) i (Some (\<Sum>k<i. a ! k * b ! k))
         = Inr (Some (\<Sum>k<length a. a ! k * b ! k))"
  using assms(2,3)
proof (induction "length a - i" arbitrary: i)
  case 0
  then have "i = length a" by simp
  then show ?case
    by (simp add: dot_loop.simps [of _ _ _ "length a"] js_length_Vec)
next
  case (Suc n)
  then have lt: "i < length a" and n: "n = length a - Suc i" by auto
  from lt assms(1) have ltb: "i < length b" by simp
  from Suc.prems(2) lt have r:
    "rnd (a ! i * b ! i) = Some (a ! i * b ! i)"
    "rnd ((\<Sum>k<i. a ! k * b ! k) + a ! i * b ! i) = Some ((\<Sum>k<i. a ! k * b ! k) + a ! i * b ! i)"
    by auto
  have next_hyp: "\<forall>j. Suc i \<le> j \<and> j < length a \<longrightarrow>
           rnd (a ! j * b ! j) = Some (a ! j * b ! j)
           \<and> rnd ((\<Sum>k<j. a ! k * b ! k) + a ! j * b ! j)
               = Some ((\<Sum>k<j. a ! k * b ! k) + a ! j * b ! j)"
    using Suc.prems(2) by auto
  have "dot_loop rnd (Vec a) (Vec b) i (Some (\<Sum>k<i. a ! k * b ! k))
        = dot_loop rnd (Vec a) (Vec b) (Suc i) (Some (\<Sum>k<Suc i. a ! k * b ! k))"
    using lt ltb r
    by (simp add: dot_loop.simps [of _ _ _ i] js_length_Vec js_get_Vec)
  also have "\<dots> = Inr (Some (\<Sum>k<length a. a ! k * b ! k))"
    using Suc.hyps(1) [OF n _ next_hyp] lt by simp
  finally show ?case .
qed

lemma sumsq_loop_eq:
  "sumsq_loop out i s = s + (\<Sum>k = i..<length out. out ! k * out ! k)"
proof (induction out i s rule: sumsq_loop.induct)
  case (1 out i s)
  show ?case
  proof (cases "i < length out")
    case True
    with 1 show ?thesis
      by (simp add: sumsq_loop.simps [of out i] sum.atLeast_Suc_lessThan)
  next
    case False
    then show ?thesis by (simp add: sumsq_loop.simps [of out i])
  qed
qed

lemma scale_loop_eq:
  "i \<le> length out \<Longrightarrow> scale_loop out i k = take i out @ map (\<lambda>x. x * k) (drop i out)"
proof (induction out i k rule: scale_loop.induct)
  case (1 out i k)
  show ?case
  proof (cases "i < length out")
    case True
    then have "scale_loop out i k = scale_loop (out[i := out ! i * k]) (Suc i) k"
      by (simp add: scale_loop.simps [of out i])
    also have "\<dots> = take (Suc i) (out[i := out ! i * k]) @ map (\<lambda>x. x * k) (drop (Suc i) (out[i := out ! i * k]))"
      using 1 True by simp
    also have "\<dots> = take i out @ map (\<lambda>x. x * k) (drop i out)"
      using True by (simp add: take_Suc_conv_app_nth Cons_nth_drop_Suc [symmetric])
    finally show ?thesis .
  next
    case False
    with 1(2) have "i = length out" by simp
    then show ?thesis by (simp add: scale_loop.simps [of out "length out"])
  qed
qed

lemma sum_nth_squares: "(\<Sum>k = 0..<length v. v ! k * v ! k) = (\<Sum>x\<leftarrow>v. x\<^sup>2)" for v :: "real list"
  by (induction v rule: rev_induct) (simp_all add: nth_append power2_eq_square)

lemma sumsq_loop_sum_list: "sumsq_loop v 0 0 = (\<Sum>x\<leftarrow>v. x\<^sup>2)"
  by (simp add: sumsq_loop_eq sum_nth_squares)

lemma scale_loop_map: "scale_loop v 0 k = map (\<lambda>x. x * k) v"
  by (simp add: scale_loop_eq)

section \<open>The L2 norm and the dot product\<close>

lemma sum_squares_nonneg: "0 \<le> (\<Sum>x\<leftarrow>v. x\<^sup>2)" for v :: "real list"
  by (induction v) simp_all

lemma l2norm_nonneg: "0 \<le> l2norm v"
  by (simp add: l2norm_def sum_squares_nonneg)

lemma l2norm_zero_iff: "l2norm v = 0 \<longleftrightarrow> (\<Sum>x\<leftarrow>v. x\<^sup>2) = 0"
  by (simp add: l2norm_def)

lemma l2norm_pos_iff: "0 < l2norm v \<longleftrightarrow> 0 < (\<Sum>x\<leftarrow>v. x\<^sup>2)"
  by (simp add: l2norm_def)

lemma l2norm_one_iff: "l2norm v = 1 \<longleftrightarrow> (\<Sum>x\<leftarrow>v. x\<^sup>2) = 1"
  by (simp add: l2norm_def)

section \<open>The normalisation step in closed form\<close>

lemma normalize_step_of_zero: "l2norm v = 0 \<Longrightarrow> normalize_step v = Some v"
  by (simp add: normalize_step_def inv_norm_def sumsq_loop_sum_list l2norm_zero_iff)

lemma normalize_step_pos:
  assumes "l2norm v \<noteq> 0"
  shows "normalize_step v = Some (map (\<lambda>x. x * (1 / l2norm v)) v)"
proof -
  from assms l2norm_nonneg [of v] have pos: "0 < l2norm v" by simp
  then have spos: "0 < (\<Sum>x\<leftarrow>v. x\<^sup>2)" by (simp add: l2norm_pos_iff)
  have inv: "inv_norm (sumsq_loop v 0 0) = Some (1 / l2norm v)"
    using spos pos by (simp add: inv_norm_def js_div_def sumsq_loop_sum_list l2norm_def)
  show ?thesis
  proof (cases "1 / l2norm v = 1")
    case True
    then have "map (\<lambda>x. x * (1 / l2norm v)) v = v" by simp
    with True inv show ?thesis by (simp add: normalize_step_def)
  next
    case False
    with inv show ?thesis by (simp add: normalize_step_def scale_loop_map)
  qed
qed

lemma sum_squares_scale: "(\<Sum>x\<leftarrow>map (\<lambda>x. x * k) v. x\<^sup>2) = k\<^sup>2 * (\<Sum>x\<leftarrow>v. x\<^sup>2)" for v :: "real list"
  by (induction v) (simp_all add: power_mult_distrib algebra_simps)

lemma l2norm_scale: "l2norm (map (\<lambda>x. x * k) v) = \<bar>k\<bar> * l2norm v"
  unfolding l2norm_def sum_squares_scale by (simp add: real_sqrt_mult)

lemma l2norm_normalized: "l2norm v \<noteq> 0 \<Longrightarrow> l2norm (map (\<lambda>x. x * (1 / l2norm v)) v) = 1"
  using l2norm_nonneg [of v] l2norm_scale [of "1 / l2norm v" v] by simp

section \<open>cosineSim on two arrays\<close>

lemma cosineSim_in_Vec_eq:
  assumes "length a = length b"
    and "\<forall>i<length a.
           rnd (a ! i * b ! i) = Some (a ! i * b ! i)
           \<and> rnd ((\<Sum>k<i. a ! k * b ! k) + a ! i * b ! i)
               = Some ((\<Sum>k<i. a ! k * b ! k) + a ! i * b ! i)"
  shows "cosineSim_in rnd (Vec a) (Vec b) = Inr (Some (dot_product a b))"
proof -
  have "dot_loop rnd (Vec a) (Vec b) 0 (Some (\<Sum>k<0. a ! k * b ! k))
        = Inr (Some (\<Sum>k<length a. a ! k * b ! k))"
    using assms by (intro dot_loop_Vec) auto
  with assms(1) show ?thesis
    by (simp add: cosineSim_in_def truthy_Vec js_length_Vec dot_product_def)
qed

lemma cosineSim_Vec_eq:
  "length a = length b \<Longrightarrow> cosineSim (Vec a) (Vec b) = Inr (Some (dot_product a b))"
  unfolding cosineSim_def by (rule cosineSim_in_Vec_eq) (simp_all add: exact_def)

lemma cosineSim_in_Vec_neq:
  "length a \<noteq> length b \<Longrightarrow> cosineSim_in rnd (Vec a) (Vec b) = Inr (Some (- 1))"
  by (simp add: cosineSim_in_def truthy_Vec js_length_Vec)

lemma cosineSim_Vec_neq:
  "length a \<noteq> length b \<Longrightarrow> cosineSim (Vec a) (Vec b) = Inr (Some (- 1))"
  by (simp add: cosineSim_def cosineSim_in_Vec_neq)

lemma dot_product_commute: "length a = length b \<Longrightarrow> dot_product a b = dot_product b a"
  by (simp add: dot_product_def mult.commute)

lemma dot_product_self: "dot_product a a = (\<Sum>x\<leftarrow>a. x\<^sup>2)"
  using sum_nth_squares [of a] by (simp add: dot_product_def atLeast0LessThan)

lemma dot_product_upper:
  assumes "length a = length b"
  shows "2 * dot_product a b \<le> dot_product a a + dot_product b b"
proof -
  have "0 \<le> (\<Sum>i<length a. (a ! i - b ! i)\<^sup>2)" by (simp add: sum_nonneg)
  also have "(\<Sum>i<length a. (a ! i - b ! i)\<^sup>2)
             = (\<Sum>i<length a. a ! i * a ! i) + (\<Sum>i<length a. b ! i * b ! i)
               - 2 * (\<Sum>i<length a. a ! i * b ! i)"
    by (simp add: power2_diff power2_eq_square sum.distrib sum_subtractf sum_distrib_left algebra_simps)
  finally show ?thesis using assms by (simp add: dot_product_def)
qed

lemma dot_product_lower:
  assumes "length a = length b"
  shows "- (dot_product a a + dot_product b b) \<le> 2 * dot_product a b"
proof -
  have "0 \<le> (\<Sum>i<length a. (a ! i + b ! i)\<^sup>2)" by (simp add: sum_nonneg)
  also have "(\<Sum>i<length a. (a ! i + b ! i)\<^sup>2)
             = (\<Sum>i<length a. a ! i * a ! i) + (\<Sum>i<length a. b ! i * b ! i)
               + 2 * (\<Sum>i<length a. a ! i * b ! i)"
    by (simp add: power2_sum power2_eq_square sum.distrib sum_distrib_left algebra_simps)
  finally show ?thesis using assms by (simp add: dot_product_def)
qed

lemma dot_product_bounds:
  assumes "length a = length b" "l2norm a = 1" "l2norm b = 1"
  shows "- 1 \<le> dot_product a b \<and> dot_product a b \<le> 1"
proof -
  from assms(2,3) have "dot_product a a = 1" "dot_product b b = 1"
    by (simp_all add: dot_product_self l2norm_one_iff)
  with dot_product_upper [OF assms(1)] dot_product_lower [OF assms(1)]
  show ?thesis by simp
qed


section \<open>cosineSim on arbitrary arguments\<close>






section \<open>binary64 rounding\<close>

text \<open>\<open>floor_log2\<close> finds the binade of a positive number.\<close>

lemma floor_log2_bounds:
  assumes "0 < x"
  shows "pow2 (floor_log2 x) \<le> x \<and> x < pow2 (floor_log2 x + 1)"
proof (cases "1 \<le> x")
  case True
  define n where "n = \<lfloor>x\<rfloor>"
  from True have npos: "0 < n" by (simp add: n_def)
  then have bl: "1 \<le> bitlen n" by (simp add: bitlen_alt_def)
  have E: "floor_log2 x = bitlen n - 1" using True by (simp add: floor_log2_def n_def)
  from bitlen_bounds [OF npos] have lo: "2 ^ nat (bitlen n - 1) \<le> n" and hi: "n < 2 ^ nat (bitlen n)"
    by simp_all
  have "(2::real) ^ nat (bitlen n - 1) \<le> real_of_int n" using lo by simp
  also have "real_of_int n \<le> x" by (simp add: n_def)
  finally have 1: "pow2 (floor_log2 x) \<le> x" using bl by (simp add: E pow2_def)
  from hi have "n + 1 \<le> 2 ^ nat (bitlen n)" by simp
  then have "real_of_int (n + 1) \<le> 2 ^ nat (bitlen n)"
    by (simp only: of_int_le_numeral_power_cancel_iff)
  moreover have "x < real_of_int (n + 1)" by (simp add: n_def)
  ultimately have "x < 2 ^ nat (bitlen n)" by (rule less_le_trans [rotated])
  then have 2: "x < pow2 (floor_log2 x + 1)" using bl by (simp add: E pow2_def)
  from 1 2 show ?thesis ..
next
  case False
  with assms have x1: "x < 1" by simp
  define N where "N = \<lceil>1 / x\<rceil>"
  from assms x1 have "1 < 1 / x" by simp
  then have N2: "2 \<le> N" unfolding N_def by linarith
  then have mpos: "0 < N - 1" by simp
  define k where "k = bitlen (N - 1)"
  from mpos have k1: "1 \<le> k" by (simp add: k_def bitlen_alt_def)
  have E: "floor_log2 x = - k" using False by (simp add: floor_log2_def N_def k_def)
  from bitlen_bounds [OF mpos] have lo: "2 ^ nat (k - 1) \<le> N - 1" and hi: "N - 1 < 2 ^ nat k"
    by (simp_all add: k_def)
  from hi have "N \<le> 2 ^ nat k" by simp
  then have "real_of_int N \<le> 2 ^ nat k" by simp
  moreover have "1 / x \<le> real_of_int N" by (simp add: N_def)
  ultimately have "1 / x \<le> 2 ^ nat k" by (rule order_trans [rotated])
  with assms have "1 / 2 ^ nat k \<le> x"
    by (simp add: field_simps)
  then have 1: "pow2 (floor_log2 x) \<le> x" using k1 by (simp add: E pow2_def)
  have "(2::real) ^ nat (k - 1) \<le> real_of_int (N - 1)"
    using lo by (simp only: numeral_power_le_of_int_cancel_iff)
  moreover have "real_of_int (N - 1) < 1 / x" unfolding N_def by linarith
  ultimately have "2 ^ nat (k - 1) < 1 / x" by (rule le_less_trans)
  with assms have lt: "x < 1 / 2 ^ nat (k - 1)"
    by (simp add: field_simps)
  have 2: "x < pow2 (floor_log2 x + 1)"
  proof (cases "k = 1")
    case True
    with lt show ?thesis by (simp add: E pow2_def)
  next
    case False
    with k1 have "- k + 1 < 0" by simp
    moreover have "nat (- (- k + 1)) = nat (k - 1)" by simp
    ultimately show ?thesis using lt by (simp add: E pow2_def)
  qed
  from 1 2 show ?thesis ..
qed

text \<open>Rounding at given numbers. An integer below \<open>2 ^ 53\<close> in absolute value is a
  binary64 number; \<open>10 ^ 16\<close> is one too, and \<open>10 ^ 16 + 1\<close> lies halfway between two of
  them; \<open>1 / 10\<close> and the square of \<open>2 ^ 27 + 1\<close> are rounded.\<close>

lemma bitlen_numeral_step: "bitlen (numeral k) = bitlen (numeral k div 2) + 1"
  by (subst compute_bitlen) simp

lemma bitlen_one: "bitlen 1 = 1"
  by (subst compute_bitlen) simp



lemma binary64_eval:
  assumes "x \<noteq> 0" and "floor_log2 \<bar>x\<bar> = E" and "max (E - 52) (- 1074) = q"
    and "round_half_even (\<bar>x\<bar> / pow2 q) = m" and "of_int m * pow2 q = y" and "y < 2 ^ 1024"
  shows "binary64 x = Some (sgn x * y)"
  using assms unfolding binary64_def Let_def by simp







lemma binary64_tenth: "binary64 (1 / 10) = Some (3602879701896397 / 36028797018963968)"
  using binary64_eval [of "1 / 10" "- 4" "- 56" 7205759403792794 "3602879701896397 / 36028797018963968"]
  by (simp add: floor_log2_def bitlen_numeral_step bitlen_one pow2_def round_half_even_def Let_def)

lemma binary64_product_rounds: "binary64 (134217729 * 134217729) = Some 18014398777917440"
  using binary64_eval [of "134217729 * 134217729" 54 2 4503599694479360 18014398777917440]
  by (simp add: floor_log2_def bitlen_numeral_step bitlen_one pow2_def round_half_even_def Let_def)



section \<open>Model loading and the guard of embedFromCanvas\<close>

text \<open>A call of \<open>initEmbeddingModel\<close> that throws leaves the module state as it was:
  the assignment to \<open>embedModel\<close> comes after the last statement that can throw.\<close>

lemma initEmbeddingModel_throws:
  "initEmbeddingModel g s = (Inl e, s') \<Longrightarrow> s' = s"
  by (auto simp: initEmbeddingModel_def split: option.splits sum.splits)

lemma init_calls_all_throw:
  "\<forall>r\<in>set (fst (init_calls gs s)). isl r \<Longrightarrow> snd (init_calls gs s) = s"
proof (induction gs arbitrary: s)
  case Nil
  then show ?case by simp
next
  case (Cons g gs)
  obtain r s' where r: "initEmbeddingModel g s = (r, s')" by (cases "initEmbeddingModel g s")
  obtain rs s'' where rs: "init_calls gs s' = (rs, s'')" by (cases "init_calls gs s'")
  from Cons.prems r rs have "isl r" and all: "\<forall>x\<in>set (fst (init_calls gs s')). isl x"
    by simp_all
  then obtain e where "r = Inl e" by (cases r) simp_all
  with r have "s' = s" by (simp add: initEmbeddingModel_throws)
  with Cons.IH [OF all] r rs show ?case by simp
qed

lemma embedFromCanvas_guard:
  "tf g = None \<or> embedModel s = None \<Longrightarrow>
   embedFromCanvas g s can = Inl (Error ''Embedding model non disponibile'')"
  by (auto simp: embedFromCanvas_def split: option.splits)

section \<open>Computed examples\<close>

lemma l2norm_3_4: "l2norm [3, 4] = 5"
proof -
  have "l2norm [3, 4] = sqrt (5\<^sup>2)" by (simp add: l2norm_def)
  then show ?thesis by simp
qed

lemma normalize_step_3_4: "normalize_step [3, 4] = Some [3 / 5, 4 / 5]"
  using normalize_step_pos [of "[3, 4]"] by (simp add: l2norm_3_4)

section \<open>The claims\<close>

text \<open>
  C1 (as amended). For every pair of arrays of unequal length, \<open>cosineSim\<close> returns
  the sentinel \<open>-1\<close> and throws nothing; the result does not depend on any element, so
  nothing is truncated or padded. The claim as stated (the call fails with a
  DimensionMismatch error) does not hold: the guard of the source returns \<open>-1\<close>.
\<close>

theorem cosineSim_mismatch_sentinel:
  "length a \<noteq> length b \<Longrightarrow> cosineSim (Vec a) (Vec b) = Inr (Some (- 1))"
  by (rule cosineSim_Vec_neq)

theorem cosineSim_mismatch_sentinel_witness:
  "length [1, 2, 3 :: real] \<noteq> length [4, 5 :: real]
   \<and> cosineSim (Vec [1, 2, 3]) (Vec [4, 5]) = Inr (Some (- 1))"
  using cosineSim_mismatch_sentinel [of "[1, 2, 3]" "[4, 5]"] by simp

text \<open>
  C1 as stated fails at \<open>cosineSim([1], [1, 2])\<close>: the call returns the number \<open>-1\<close>,
  it does not end in an error.
\<close>

theorem cosineSim_mismatch_no_error:
  "cosineSim (Vec [1]) (Vec [1, 2]) = Inr (Some (- 1))
   \<and> \<not> isl (cosineSim (Vec [1]) (Vec [1, 2]))"
  by (simp add: cosineSim_def cosineSim_in_def Vec_def)

text \<open>
  C2. For every vector whose L2 norm is zero, the normalisation step returns the vector
  unchanged; the factor is the constant \<open>1\<close> of the else branch, so no division takes
  place (the result is \<open>Some\<close>) and nothing is thrown.
\<close>

theorem normalize_step_zero_norm:
  "l2norm v = 0 \<Longrightarrow> normalize_step v = Some v \<and> inv_norm (sumsq_loop v 0 0) = Some 1"
  by (simp add: normalize_step_of_zero inv_norm_def sumsq_loop_sum_list l2norm_zero_iff)

theorem normalize_step_zero_norm_witness:
  "l2norm [0, 0, 0] = 0 \<and> normalize_step [0, 0, 0] = Some [0, 0, 0]
   \<and> inv_norm (sumsq_loop [0, 0, 0] 0 0) = Some 1"
  using normalize_step_zero_norm [of "[0, 0, 0]"] by (simp add: l2norm_def)

text \<open>
  C3. For every vector of length at least 1 with nonzero L2 norm, the normalisation step
  yields a vector of the same length, each element being the input element times
  \<open>1 / l2norm v\<close>; the result has L2 norm 1.
\<close>

theorem normalize_step_scales:
  "1 \<le> length v \<Longrightarrow> l2norm v \<noteq> 0 \<Longrightarrow>
   \<exists>w. normalize_step v = Some w \<and> length w = length v
     \<and> (\<forall>i<length v. w ! i = v ! i * (1 / l2norm v)) \<and> l2norm w = 1"
  using l2norm_normalized [of v] by (simp add: normalize_step_pos)

theorem normalize_step_scales_witness:
  "1 \<le> length [3, 4 :: real] \<and> l2norm [3, 4] \<noteq> 0
   \<and> normalize_step [3, 4] = Some [3 / 5, 4 / 5] \<and> l2norm [3 / 5, 4 / 5] = 1"
proof -
  from normalize_step_scales [of "[3, 4]"] obtain w where
    w: "normalize_step [3, 4] = Some w" "length w = 2"
       "\<forall>i<2. w ! i = [3, 4] ! i * (1 / 5)" "l2norm w = 1"
    by (auto simp: l2norm_3_4)
  from w(2) obtain x y where xy: "w = [x, y]"
    by (auto simp: numeral_2_eq_2 length_Suc_conv)
  from w(3) have "w ! 0 = 3 / 5" "w ! 1 = 4 / 5" by simp_all
  with xy have "w = [3 / 5, 4 / 5]" by simp
  with w show ?thesis by (simp add: l2norm_3_4)
qed




text \<open>
  C6. Similarity is symmetric: for arrays of equal length, \<open>cosineSim a b\<close> and
  \<open>cosineSim b a\<close> are the same.
\<close>

theorem cosineSim_symmetric:
  "length a = length b \<Longrightarrow> cosineSim (Vec a) (Vec b) = cosineSim (Vec b) (Vec a)"
  by (simp add: cosineSim_Vec_eq dot_product_commute)

theorem cosineSim_symmetric_witness:
  "length [1, 2 :: real] = length [3, 4 :: real]
   \<and> cosineSim (Vec [1, 2]) (Vec [3, 4]) = cosineSim (Vec [3, 4]) (Vec [1, 2])"
  using cosineSim_symmetric [of "[1, 2]" "[3, 4]"] by simp

text \<open>
  C7. For unit vectors of equal length, \<open>cosineSim a b\<close> is a number between \<open>-1\<close> and
  \<open>1\<close>, and \<open>cosineSim a a\<close> is \<open>1\<close>.
\<close>

theorem cosineSim_unit_bounded:
  "length a = length b \<Longrightarrow> l2norm a = 1 \<Longrightarrow> l2norm b = 1 \<Longrightarrow>
   (\<exists>r. cosineSim (Vec a) (Vec b) = Inr (Some r) \<and> - 1 \<le> r \<and> r \<le> 1)
   \<and> cosineSim (Vec a) (Vec a) = Inr (Some 1)"
  using dot_product_bounds [of a b]
  by (simp add: cosineSim_Vec_eq dot_product_self l2norm_one_iff)

theorem cosineSim_unit_bounded_witness:
  "length [3 / 5, 4 / 5 :: real] = length [1, 0 :: real]
   \<and> l2norm [3 / 5, 4 / 5] = 1 \<and> l2norm [1, 0] = 1
   \<and> (\<exists>r. cosineSim (Vec [3 / 5, 4 / 5]) (Vec [1, 0]) = Inr (Some r) \<and> - 1 \<le> r \<and> r \<le> 1)
   \<and> cosineSim (Vec [3 / 5, 4 / 5]) (Vec [3 / 5, 4 / 5]) = Inr (Some 1)"
proof -
  have a: "l2norm [3 / 5, 4 / 5] = 1" by (simp add: l2norm_def power2_eq_square)
  have b: "l2norm [1, 0] = 1" by (simp add: l2norm_def)
  show ?thesis
    using cosineSim_unit_bounded [of "[3 / 5, 4 / 5]" "[1, 0]", OF _ a b] a b by simp
qed

text \<open>
  C9. \<open>embedFromCanvas\<close> throws \<open>Error('Embedding model non disponibile')\<close> whenever
  \<open>globalThis.tf\<close> is absent or \<open>embedModel\<close> is unset; and \<open>embedModel\<close> is unset as
  long as every call of \<open>initEmbeddingModel\<close> since the module was loaded has thrown.
\<close>

theorem embedFromCanvas_unavailable:
  "(tf g = None \<or> embedModel s = None \<longrightarrow>
      embedFromCanvas g s can = Inl (Error ''Embedding model non disponibile''))
   \<and> ((\<forall>r\<in>set (fst (init_calls gs initial_state)). isl r) \<longrightarrow>
      embedFromCanvas g (snd (init_calls gs initial_state)) can
        = Inl (Error ''Embedding model non disponibile''))"
proof (intro conjI impI)
  assume "tf g = None \<or> embedModel s = None"
  then show "embedFromCanvas g s can = Inl (Error ''Embedding model non disponibile'')"
    by (rule embedFromCanvas_guard)
next
  assume "\<forall>r\<in>set (fst (init_calls gs initial_state)). isl r"
  then have "snd (init_calls gs initial_state) = initial_state"
    by (rule init_calls_all_throw)
  then show "embedFromCanvas g (snd (init_calls gs initial_state)) can
             = Inl (Error ''Embedding model non disponibile'')"
    by (simp add: embedFromCanvas_guard initial_state_def)
qed

theorem embedFromCanvas_unavailable_witness:
  "tf no_globals = None
   \<and> embedFromCanvas no_globals \<lparr>embedModel = Some demo_model, runtimeDim = None\<rparr> ()
       = Inl (Error ''Embedding model non disponibile'')
   \<and> fst (init_calls [no_globals, demo_globals] initial_state)
       = [Inl (Error ''TensorFlow.js non caricato''), Inl (Error ''MobileNet non caricato'')]
   \<and> embedFromCanvas demo_globals (snd (init_calls [no_globals, demo_globals] initial_state)) ()
       = Inl (Error ''Embedding model non disponibile'')"
proof -
  have r: "fst (init_calls [no_globals, demo_globals] initial_state)
           = [Inl (Error ''TensorFlow.js non caricato''), Inl (Error ''MobileNet non caricato'')]"
    by (simp add: initEmbeddingModel_def no_globals_def demo_globals_def demo_tf_def)
  have n: "tf no_globals = None" by (simp add: no_globals_def)
  from embedFromCanvas_unavailable
         [of no_globals "\<lparr>embedModel = Some demo_model, runtimeDim = None\<rparr>" "()" "[]"]
       embedFromCanvas_unavailable
         [of demo_globals initial_state "()" "[no_globals, demo_globals]"]
       r n
  show ?thesis by simp
qed




end
